theory Spec2Isabelle
  imports Complex_Main "HOL-Library.Word"
begin

section \<open>Data model\<close>

text \<open>
  The video-analysis service (\<^verbatim>\<open>services/video_analysis/main.py\<close>) reads raw audio
  from an FFmpeg child process, cuts it into segments, hands every segment to a Celery
  task (\<^verbatim>\<open>services/video_analysis/tasks.py\<close>) and pushes the insights the task
  returns onto a global \<^verbatim>\<open>asyncio.Queue\<close> that the WebSocket handlers read.

  An exception value stands for an instance of Python's \<^verbatim>\<open>Exception\<close>, the class every
  handler of the two modules catches; it carries the text \<^verbatim>\<open>str(e)\<close> gives.
\<close>

datatype exn = Exception string

fun str :: "exn \<Rightarrow> string" where
  "str (Exception m) = m"

type_synonym byte = "8 word"

text \<open>
  An insight is the dictionary literal built by \<^verbatim>\<open>extract_insights_sync\<close>: five fixed
  keys. The timestamp is the reading of \<^verbatim>\<open>time.time()\<close>; it is only stored, never
  computed with.
\<close>

record insight =
  timestamp :: real
  speaker :: string
  action :: string
  keywords' :: "string list"
  sentiment :: string

section \<open>The Celery worker (tasks.py)\<close>

text \<open>
  What the worker takes from outside the module: the temporary file
  (\<^verbatim>\<open>NamedTemporaryFile\<close>, \<^verbatim>\<open>write\<close>, \<^verbatim>\<open>flush\<close>, giving \<^verbatim>\<open>tmp.name\<close>), the Whisper
  model's \<^verbatim>\<open>transcribe\<close> (its result is a dictionary), the clock and \<^verbatim>\<open>os.unlink\<close>.
  Each call that can raise returns a sum, \<open>Inl\<close> the exception. \<^verbatim>\<open>time.sleep(0.5)\<close>
  only delays and \<^verbatim>\<open>time.time()\<close> only reads the clock.
\<close>

record worker_env =
  named_temporary_file :: "byte list \<Rightarrow> exn + string"
  model_transcribe :: "string \<Rightarrow> exn + (string \<rightharpoonup> string)"
  time_time :: real
  os_unlink :: "string \<Rightarrow> exn + unit"

text \<open>
  Every function of the worker returns its value together with the lines it wrote through
  \<^verbatim>\<open>logger.error\<close>.
\<close>

definition transcribe_audio_sync :: "worker_env \<Rightarrow> string \<Rightarrow> string \<times> string list" where
  "transcribe_audio_sync env audio_path =
     (case model_transcribe env audio_path of
        Inr result \<Rightarrow>
          ((case result ''text'' of Some transcription \<Rightarrow> transcription | None \<Rightarrow> ''''), [])
      | Inl e \<Rightarrow> ('''', [''Transcription failed: '' @ str e]))"

definition diarization_processing :: "string \<Rightarrow> exn + (string \<rightharpoonup> string)" where
  "diarization_processing file_path =
     Inr [''speaker_1'' \<mapsto> ''Speaker 1'', ''speaker_2'' \<mapsto> ''Speaker 2'']"

definition perform_diarization_sync :: "string \<Rightarrow> (string \<rightharpoonup> string) \<times> string list" where
  "perform_diarization_sync audio_path =
     (case diarization_processing audio_path of
        Inr d \<Rightarrow> (d, [])
      | Inl e \<Rightarrow> (Map.empty, [''Diarization failed: '' @ str e]))"

definition extract_insights_sync ::
  "worker_env \<Rightarrow> string \<Rightarrow> (string \<rightharpoonup> string) \<Rightarrow> exn + insight list" where
  "extract_insights_sync env transcription diarization =
     Inr [\<lparr> timestamp = time_time env,
            speaker = (case diarization ''speaker_1'' of Some s \<Rightarrow> s | None \<Rightarrow> ''Unknown''),
            action = ''Follow up on discussion'',
            keywords' = [''follow'', ''discussion''],
            sentiment = ''positive'' \<rparr>]"

text \<open>
  \<^verbatim>\<open>process_audio_chunk\<close>: the temporary file is written before the \<^verbatim>\<open>try\<close>, so a
  failure there leaves the task; the three steps run inside the \<^verbatim>\<open>try\<close>, whose handler
  returns the empty list; \<^verbatim>\<open>os.unlink\<close> runs in the \<^verbatim>\<open>finally\<close>, and an exception it
  raises replaces the value being returned.
\<close>

definition process_audio_chunk ::
  "worker_env \<Rightarrow> byte list \<Rightarrow> (exn + insight list) \<times> string list" where
  "process_audio_chunk env audio_bytes =
     (case named_temporary_file env audio_bytes of
        Inl e \<Rightarrow> (Inl e, [])
      | Inr tmp_name \<Rightarrow>
          (let (transcription, l1) = transcribe_audio_sync env tmp_name;
               (diarization, l2) = perform_diarization_sync tmp_name;
               (insights, l3) =
                 (case extract_insights_sync env transcription diarization of
                    Inr insights \<Rightarrow> (insights, [])
                  | Inl e \<Rightarrow> ([], [''Error processing audio chunk: '' @ str e]))
           in (case os_unlink env tmp_name of
                 Inl e \<Rightarrow> (Inl e, l1 @ l2 @ l3)
               | Inr _ \<Rightarrow> (Inr insights, l1 @ l2 @ l3))))"

text \<open>
  The docstrings of \<^verbatim>\<open>diarization_processing\<close> and \<^verbatim>\<open>extract_insights_sync\<close> call
  both placeholders, to be replaced by a diarization library and an NLP pipeline, and
  as written neither raises. The two handlers that guard them are therefore given a
  second time with the guarded function as a parameter: the same bodies, for whatever
  the replacement returns or raises.
\<close>

definition perform_diarization_sync_with ::
  "(string \<Rightarrow> exn + (string \<rightharpoonup> string)) \<Rightarrow> string \<Rightarrow> (string \<rightharpoonup> string) \<times> string list" where
  "perform_diarization_sync_with diarize audio_path =
     (case diarize audio_path of
        Inr d \<Rightarrow> (d, [])
      | Inl e \<Rightarrow> (Map.empty, [''Diarization failed: '' @ str e]))"

definition process_audio_chunk_with ::
  "worker_env \<Rightarrow> (string \<Rightarrow> exn + (string \<rightharpoonup> string))
     \<Rightarrow> (string \<Rightarrow> (string \<rightharpoonup> string) \<Rightarrow> exn + insight list)
     \<Rightarrow> byte list \<Rightarrow> (exn + insight list) \<times> string list" where
  "process_audio_chunk_with env diarize extract audio_bytes =
     (case named_temporary_file env audio_bytes of
        Inl e \<Rightarrow> (Inl e, [])
      | Inr tmp_name \<Rightarrow>
          (let (transcription, l1) = transcribe_audio_sync env tmp_name;
               (diarization, l2) = perform_diarization_sync_with diarize tmp_name;
               (insights, l3) =
                 (case extract transcription diarization of
                    Inr insights \<Rightarrow> (insights, [])
                  | Inl e \<Rightarrow> ([], [''Error processing audio chunk: '' @ str e]))
           in (case os_unlink env tmp_name of
                 Inl e \<Rightarrow> (Inl e, l1 @ l2 @ l3)
               | Inr _ \<Rightarrow> (Inr insights, l1 @ l2 @ l3))))"

section \<open>The capture loop (main.py)\<close>

text \<open>
  \<^verbatim>\<open>process_video_stream\<close> is one coroutine: it reads the child's output, appends to
  \<^verbatim>\<open>audio_buffer\<close>, and once the buffer holds at least \<^verbatim>\<open>THRESHOLD\<close> bytes it copies
  the buffer, clears it, calls \<^verbatim>\<open>process_audio_chunk.delay\<close> on the copy, awaits
  \<^verbatim>\<open>celery_result.get\<close> with a bound of ten seconds, and puts the insights on
  \<^verbatim>\<open>insights_queue\<close>.

  What Celery answers is outside the module. A call of \<^verbatim>\<open>delay\<close> either raises
  (the broker cannot be reached) or returns a handle; \<^verbatim>\<open>get(10)\<close> on the handle
  either returns the list of insights or raises (the timeout, a broker error, an error
  of the task).
\<close>

datatype get_result = Got "insight list" | GetRaised exn

datatype delay_result = AsyncResult get_result | DelayRaised exn

text \<open>
  The effects of the coroutine, in the order it performs them: every \<^verbatim>\<open>await\<close> of the
  loop and every call that leaves the process is one event.
\<close>

datatype event =
    Read "byte list"       \<comment> \<open>\<^verbatim>\<open>await process.stdout.read(1024)\<close> returned these bytes\<close>
  | Delay "byte list"      \<comment> \<open>\<^verbatim>\<open>process_audio_chunk.delay(current_buffer)\<close> returned a handle\<close>
  | AwaitGet get_result    \<comment> \<open>\<^verbatim>\<open>await asyncio.to_thread(celery_result.get, 10)\<close> finished\<close>
  | Put insight            \<comment> \<open>\<^verbatim>\<open>await insights_queue.put(insight)\<close>\<close>
  | LogError string        \<comment> \<open>\<^verbatim>\<open>logger.error\<close>\<close>
  | Sleep                  \<comment> \<open>\<^verbatim>\<open>await asyncio.sleep(0.1)\<close>\<close>
  | Wait                   \<comment> \<open>\<^verbatim>\<open>await process.wait()\<close>\<close>

record capture_state =
  audio_buffer :: "byte list"
  insights_queue :: "insight list"
  trace :: "event list"

definition THRESHOLD :: nat where
  "THRESHOLD = 100000"

definition emit :: "event list \<Rightarrow> capture_state \<Rightarrow> capture_state" where
  "emit es st = st\<lparr>trace := trace st @ es\<rparr>"

text \<open>The payloads handed to the work queue so far, in the order of the calls.\<close>

fun delayed :: "event list \<Rightarrow> byte list list" where
  "delayed [] = []"
| "delayed (Delay b # es) = b # delayed es"
| "delayed (e # es) = delayed es"

text \<open>
  Lines 149 to 155: the \<^verbatim>\<open>try\<close> around the wait for the result. On a result every
  insight is put on the queue in the order of the list; on an exception one line is
  logged.
\<close>

definition collect :: "get_result \<Rightarrow> capture_state \<Rightarrow> capture_state" where
  "collect r st =
     (case r of
        Got insights \<Rightarrow>
          emit (AwaitGet r # map Put insights)
            (st\<lparr>insights_queue := insights_queue st @ insights\<rparr>)
      | GetRaised e \<Rightarrow>
          emit [AwaitGet r, LogError (''Celery task processing failed: '' @ str e)] st)"

text \<open>
  One pass through the body of the \<^verbatim>\<open>while\<close> loop for a non-empty chunk. The answer
  of Celery may depend on the payload and on how many segments were submitted before.
  The call of \<^verbatim>\<open>delay\<close> stands outside the \<^verbatim>\<open>try\<close>: an exception it raises leaves
  the coroutine.
\<close>

definition loop_body ::
  "nat \<Rightarrow> (nat \<Rightarrow> byte list \<Rightarrow> delay_result) \<Rightarrow> byte list \<Rightarrow> capture_state
     \<Rightarrow> exn option \<times> capture_state" where
  "loop_body T celery chunk st =
     (let st1 = emit [Read chunk] (st\<lparr>audio_buffer := audio_buffer st @ chunk\<rparr>) in
      if T \<le> length (audio_buffer st1) then
        (let current_buffer = audio_buffer st1;
             st2 = st1\<lparr>audio_buffer := []\<rparr>
         in case celery (length (delayed (trace st2))) current_buffer of
              DelayRaised e \<Rightarrow> (Some e, st2)
            | AsyncResult r \<Rightarrow>
                (None, emit [Sleep] (collect r (emit [Delay current_buffer] st2))))
      else (None, emit [Sleep] st1))"

text \<open>
  The loop. The child's output is the list of the values the successive calls of
  \<^verbatim>\<open>read(1024)\<close> return; after the list the stream is at its end and \<^verbatim>\<open>read\<close>
  returns the empty block, on which the loop breaks.
\<close>

fun capture_loop ::
  "nat \<Rightarrow> (nat \<Rightarrow> byte list \<Rightarrow> delay_result) \<Rightarrow> byte list list \<Rightarrow> capture_state
     \<Rightarrow> exn option \<times> capture_state" where
  "capture_loop T celery [] st = (None, emit [Read []] st)"
| "capture_loop T celery (chunk # stdout) st =
     (if chunk = [] then (None, emit [Read []] st)
      else case loop_body T celery chunk st of
             (Some e, st') \<Rightarrow> (Some e, st')
           | (None, st') \<Rightarrow> capture_loop T celery stdout st')"

record capture_env =
  create_subprocess_exec :: "string \<Rightarrow> exn + byte list list"
  celery_delay :: "nat \<Rightarrow> byte list \<Rightarrow> delay_result"

definition process_video_stream ::
  "capture_env \<Rightarrow> string \<Rightarrow> capture_state \<Rightarrow> exn option \<times> capture_state" where
  "process_video_stream env stream_url st =
     (case create_subprocess_exec env stream_url of
        Inl e \<Rightarrow> (Some e, st)
      | Inr stdout \<Rightarrow>
          (case capture_loop THRESHOLD (celery_delay env) stdout (st\<lparr>audio_buffer := []\<rparr>) of
             (Some e, st') \<Rightarrow> (Some e, st')
           | (None, st') \<Rightarrow> (None, emit [Wait] st')))"

section \<open>The endpoints (main.py)\<close>

record VideoAnalysisRequest =
  meeting_id :: string
  video_url :: string
  language :: string

text \<open>
  \<^verbatim>\<open>background_tasks.add_task(process_video_stream, request.video_url)\<close> stores the
  function and its argument; the handler does not call the function.
\<close>

datatype background_task = ProcessVideoStream string

record analyze_video_result =
  response :: "(string \<times> string) list"
  background_tasks :: "background_task list"
  info_log :: "string list"

definition analyze_video ::
  "VideoAnalysisRequest \<Rightarrow> background_task list \<Rightarrow> analyze_video_result" where
  "analyze_video request tasks =
     \<lparr> response = [(''status'', ''started''), (''video_url'', video_url request)],
       background_tasks = tasks @ [ProcessVideoStream (video_url request)],
       info_log = [''Starting video analysis for meeting '' @ meeting_id request] \<rparr>"

text \<open>
  \<^verbatim>\<open>websocket_insights\<close> runs once per connection: it accepts, then forever takes one
  insight from the one global queue and sends it on its own socket; an exception is
  logged and closes the socket. All handlers run on one event loop, so the system moves
  by steps: the capture loop puts an insight, a connection is accepted, or the pending
  \<^verbatim>\<open>insights_queue.get()\<close> of one connection is served and its \<^verbatim>\<open>send_json\<close> returns
  or raises. A connection whose \<^verbatim>\<open>get\<close> finds the queue empty keeps waiting.
  \<open>Serve c None\<close> is a send that returned, \<open>Serve c (Some e)\<close> one that raised
  \<open>e\<close>: the insight is gone from the queue, the line
  \<^verbatim>\<open>WebSocket error: e\<close> is logged and the socket is closed.
\<close>

datatype action =
    Enqueue insight
  | Accept nat
  | Serve nat "exn option"

record hub =
  pending :: "insight list"
  connections :: "nat list"
  taken :: "(nat \<times> insight \<times> bool) list"
  error_log :: "string list"

fun hub_step :: "action \<Rightarrow> hub \<Rightarrow> hub" where
  "hub_step (Enqueue x) h = h\<lparr>pending := pending h @ [x]\<rparr>"
| "hub_step (Accept c) h =
     (if c \<in> set (connections h) then h else h\<lparr>connections := connections h @ [c]\<rparr>)"
| "hub_step (Serve c sent) h =
     (if c \<in> set (connections h) then
        (case pending h of
           [] \<Rightarrow> h
         | x # xs \<Rightarrow>
             (case sent of
                None \<Rightarrow> h\<lparr>pending := xs, taken := taken h @ [(c, x, True)]\<rparr>
              | Some e \<Rightarrow>
                  h\<lparr>pending := xs, taken := taken h @ [(c, x, False)],
                    connections := removeAll c (connections h),
                    error_log := error_log h @ [''WebSocket error: '' @ str e]\<rparr>))
      else h)"

fun hub_run :: "action list \<Rightarrow> hub \<Rightarrow> hub" where
  "hub_run [] h = h"
| "hub_run (a # as) h = hub_run as (hub_step a h)"

fun enqueued :: "action list \<Rightarrow> insight list" where
  "enqueued [] = []"
| "enqueued (Enqueue x # as) = x # enqueued as"
| "enqueued (a # as) = enqueued as"

text \<open>The insights a connection was sent, in order.\<close>

definition received :: "nat \<Rightarrow> hub \<Rightarrow> insight list" where
  "received c h = map (\<lambda>(c', x, ok). x) (filter (\<lambda>(c', x, ok). c' = c \<and> ok) (taken h))"

definition hub0 :: hub where
  "hub0 = \<lparr> pending = [], connections = [], taken = [], error_log = [] \<rparr>"

text \<open>
  An order on a trace: every submission is directly followed by the wait for its result.
\<close>

fun awaited :: "event list \<Rightarrow> bool" where
  "awaited [] = True"
| "awaited (Delay b # es) = (case es of AwaitGet r # es' \<Rightarrow> awaited es' | _ \<Rightarrow> False)"
| "awaited (e # es) = awaited es"

text \<open>
  The order the specification asks for instead: after a submission the loop reaches its
  next read without having waited for a result.
\<close>

fun waits_first :: "event list \<Rightarrow> bool" where
  "waits_first [] = False"
| "waits_first (Read c # es) = False"
| "waits_first (AwaitGet r # es) = True"
| "waits_first (e # es) = waits_first es"

fun no_wait_before_read :: "event list \<Rightarrow> bool" where
  "no_wait_before_read [] = True"
| "no_wait_before_read (Delay b # es) = (\<not> waits_first es \<and> no_wait_before_read es)"
| "no_wait_before_read (e # es) = no_wait_before_read es"

section \<open>Inputs used in the examples\<close>

text \<open>
  A block of zero bytes, the state in which the coroutine starts, one insight as the worker
  builds it, and two answers of Celery: every task returns the given list in time, or
  every wait for a result ends in the timeout.
\<close>

abbreviation zeros :: "nat \<Rightarrow> byte list" where
  "zeros n \<equiv> replicate n 0"

definition fresh :: capture_state where
  "fresh = \<lparr> audio_buffer = [], insights_queue = [], trace = [] \<rparr>"

definition insight0 :: insight where
  "insight0 = \<lparr> timestamp = 0, speaker = ''Speaker 1'', action = ''Follow up on discussion'',
                keywords' = [''follow'', ''discussion''], sentiment = ''positive'' \<rparr>"

definition always_got :: "insight list \<Rightarrow> nat \<Rightarrow> byte list \<Rightarrow> delay_result" where
  "always_got insights k b = AsyncResult (Got insights)"

definition stream_of :: "byte list list \<Rightarrow> string \<Rightarrow> exn + byte list list" where
  "stream_of stdout stream_url = Inr stdout"


section \<open>Properties of the worker\<close>

lemma transcribe_audio_sync_failed:
  "model_transcribe env p = Inl e \<Longrightarrow> fst (transcribe_audio_sync env p) = ''''"
  by (simp add: transcribe_audio_sync_def)

lemma process_audio_chunk_unfold:
  assumes "named_temporary_file env b = Inr p" and "os_unlink env p = Inr u"
  shows "fst (process_audio_chunk env b) =
           extract_insights_sync env (fst (transcribe_audio_sync env p))
             (fst (perform_diarization_sync p))"
  using assms
  by (simp add: process_audio_chunk_def extract_insights_sync_def split: prod.splits)

text \<open>
  Claim C4, as stated, fails. The claim: for every block of audio and any failure inside
  one of the three steps, the worker returns a list and raises nothing to its caller.
  The temporary file is written before the \<^verbatim>\<open>try\<close> and removed in the
  \<^verbatim>\<open>finally\<close>. When the file has disappeared, the transcription raises, which is
  absorbed, and then \<^verbatim>\<open>os.unlink\<close> raises, which replaces the list being returned
  and reaches the caller. When the file cannot be written, the worker raises before any
  step has run.
\<close>

theorem worker_cleanup_failure_counterexample:
  "fst (process_audio_chunk
     \<lparr> named_temporary_file = (\<lambda>b. Inr ''/tmp/a.wav''),
       model_transcribe = (\<lambda>p. Inl (Exception ''No such file: /tmp/a.wav'')),
       time_time = 5,
       os_unlink = (\<lambda>p. Inl (Exception ''No such file: /tmp/a.wav'')) \<rparr> [1, 2, 3])
   = Inl (Exception ''No such file: /tmp/a.wav'') \<and>
   fst (process_audio_chunk
     \<lparr> named_temporary_file = (\<lambda>b. Inl (Exception ''No space left on device'')),
       model_transcribe = (\<lambda>p. Inr [''text'' \<mapsto> ''hello'']),
       time_time = 5,
       os_unlink = (\<lambda>p. Inr ()) \<rparr> [1, 2, 3])
   = Inl (Exception ''No space left on device'')"
  by (simp add: process_audio_chunk_def transcribe_audio_sync_def perform_diarization_sync_def
      diarization_processing_def extract_insights_sync_def)

lemma process_audio_chunk_with_unfold:
  assumes "named_temporary_file env b = Inr p" and "os_unlink env p = Inr u"
  shows "fst (process_audio_chunk_with env diarize extract b) =
           Inr (case extract (fst (transcribe_audio_sync env p))
                       (fst (perform_diarization_sync_with diarize p)) of
                  Inr insights \<Rightarrow> insights
                | Inl e \<Rightarrow> [])"
  using assms
  by (simp add: process_audio_chunk_with_def split: prod.splits sum.splits)

lemma perform_diarization_sync_instance:
  "perform_diarization_sync_with diarization_processing audio_path =
   perform_diarization_sync audio_path"
  by (simp add: perform_diarization_sync_def perform_diarization_sync_with_def)

lemma process_audio_chunk_instance:
  "process_audio_chunk env b =
   process_audio_chunk_with env diarization_processing (extract_insights_sync env) b"
  unfolding process_audio_chunk_def process_audio_chunk_with_def
    perform_diarization_sync_instance
  by (rule refl)

text \<open>
  Claim C4, amended. For every block of audio whose temporary file is written and is
  removed again without error, the worker returns a list and no exception of a step
  reaches its caller, whatever the transcription, the diarization and the insight
  extraction return or raise: a transcription that raises gives the empty transcript, a
  diarization that raises gives the empty mapping, the extraction runs on what the two
  gave, and an extraction that raises gives the empty list. The task as written is the
  instance with the two placeholders, and for it a failed transcription gives what
  extraction returns for the empty transcript. A failure to write the temporary file or
  to remove it does reach the caller.
\<close>

theorem worker_absorbs_step_failures:
  assumes "named_temporary_file env b = Inr p" and "os_unlink env p = Inr ()"
  shows "fst (process_audio_chunk_with env diarize extract b) =
           Inr (case extract (fst (transcribe_audio_sync env p))
                       (fst (perform_diarization_sync_with diarize p)) of
                  Inr insights \<Rightarrow> insights
                | Inl e \<Rightarrow> []) \<and>
         (\<forall>e. model_transcribe env p = Inl e \<longrightarrow>
            fst (transcribe_audio_sync env p) = '''' \<and>
            snd (transcribe_audio_sync env p) = [''Transcription failed: '' @ str e]) \<and>
         (\<forall>e. diarize p = Inl e \<longrightarrow>
            fst (perform_diarization_sync_with diarize p) = Map.empty \<and>
            snd (perform_diarization_sync_with diarize p) = [''Diarization failed: '' @ str e]) \<and>
         process_audio_chunk env b =
           process_audio_chunk_with env diarization_processing (extract_insights_sync env) b \<and>
         (\<exists>insights. fst (process_audio_chunk env b) = Inr insights) \<and>
         (\<forall>e. model_transcribe env p = Inl e \<longrightarrow>
            fst (process_audio_chunk env b) =
              extract_insights_sync env '''' (fst (perform_diarization_sync p)))"
proof -
  have g: "fst (process_audio_chunk_with env diarize extract b) =
           Inr (case extract (fst (transcribe_audio_sync env p))
                       (fst (perform_diarization_sync_with diarize p)) of
                  Inr insights \<Rightarrow> insights
                | Inl e \<Rightarrow> [])"
    using assms by (rule process_audio_chunk_with_unfold)
  have t: "fst (transcribe_audio_sync env p) = '''' \<and>
           snd (transcribe_audio_sync env p) = [''Transcription failed: '' @ str e]"
    if "model_transcribe env p = Inl e" for e
    using that by (simp add: transcribe_audio_sync_def)
  have d: "fst (perform_diarization_sync_with diarize p) = Map.empty \<and>
           snd (perform_diarization_sync_with diarize p) = [''Diarization failed: '' @ str e]"
    if "diarize p = Inl e" for e
    using that by (simp add: perform_diarization_sync_with_def)
  have i: "process_audio_chunk env b =
           process_audio_chunk_with env diarization_processing (extract_insights_sync env) b"
    by (rule process_audio_chunk_instance)
  have u: "fst (process_audio_chunk env b) =
             extract_insights_sync env (fst (transcribe_audio_sync env p))
               (fst (perform_diarization_sync p))"
    using assms by (rule process_audio_chunk_unfold)
  have r: "\<exists>insights. fst (process_audio_chunk env b) = Inr insights"
    unfolding u by (simp add: extract_insights_sync_def)
  have f: "fst (process_audio_chunk env b) =
             extract_insights_sync env '''' (fst (perform_diarization_sync p))"
    if "model_transcribe env p = Inl e" for e
    using u t [OF that] by simp
  from g t d i r f show ?thesis by blast
qed

theorem worker_absorbs_step_failures_witness:
  "fst (process_audio_chunk_with
     \<lparr> named_temporary_file = (\<lambda>b. Inr ''/tmp/a.wav''),
       model_transcribe = (\<lambda>p. Inl (Exception ''bad audio'')),
       time_time = 5,
       os_unlink = (\<lambda>p. Inr ()) \<rparr>
     (\<lambda>p. Inl (Exception ''no speakers''))
     (extract_insights_sync
        \<lparr> named_temporary_file = (\<lambda>b. Inr ''/tmp/a.wav''),
          model_transcribe = (\<lambda>p. Inl (Exception ''bad audio'')),
          time_time = 5,
          os_unlink = (\<lambda>p. Inr ()) \<rparr>)
     [1, 2, 3])
   = Inr [\<lparr> timestamp = 5, speaker = ''Unknown'', action = ''Follow up on discussion'',
            keywords' = [''follow'', ''discussion''], sentiment = ''positive'' \<rparr>] \<and>
   fst (process_audio_chunk_with
     \<lparr> named_temporary_file = (\<lambda>b. Inr ''/tmp/a.wav''),
       model_transcribe = (\<lambda>p. Inr [''text'' \<mapsto> ''hello'']),
       time_time = 5,
       os_unlink = (\<lambda>p. Inr ()) \<rparr>
     diarization_processing
     (\<lambda>transcription diarization. Inl (Exception ''pipeline failed''))
     [1, 2, 3])
   = Inr [] \<and>
   fst (process_audio_chunk
     \<lparr> named_temporary_file = (\<lambda>b. Inr ''/tmp/a.wav''),
       model_transcribe = (\<lambda>p. Inl (Exception ''bad audio'')),
       time_time = 5,
       os_unlink = (\<lambda>p. Inr ()) \<rparr> [1, 2, 3])
   = Inr [\<lparr> timestamp = 5, speaker = ''Speaker 1'', action = ''Follow up on discussion'',
            keywords' = [''follow'', ''discussion''], sentiment = ''positive'' \<rparr>]"
  using worker_absorbs_step_failures
    [of "\<lparr> named_temporary_file = (\<lambda>b. Inr ''/tmp/a.wav''),
           model_transcribe = (\<lambda>p. Inl (Exception ''bad audio'')),
           time_time = 5,
           os_unlink = (\<lambda>p. Inr ()) \<rparr>" "[1, 2, 3]" "''/tmp/a.wav''"
        "\<lambda>p. Inl (Exception ''no speakers'')"
        "extract_insights_sync
           \<lparr> named_temporary_file = (\<lambda>b. Inr ''/tmp/a.wav''),
             model_transcribe = (\<lambda>p. Inl (Exception ''bad audio'')),
             time_time = 5,
             os_unlink = (\<lambda>p. Inr ()) \<rparr>"]
    worker_absorbs_step_failures
    [of "\<lparr> named_temporary_file = (\<lambda>b. Inr ''/tmp/a.wav''),
           model_transcribe = (\<lambda>p. Inr [''text'' \<mapsto> ''hello'']),
           time_time = 5,
           os_unlink = (\<lambda>p. Inr ()) \<rparr>" "[1, 2, 3]" "''/tmp/a.wav''"
        diarization_processing
        "\<lambda>transcription diarization. Inl (Exception ''pipeline failed'')"]
    worker_absorbs_step_failures
    [of "\<lparr> named_temporary_file = (\<lambda>b. Inr ''/tmp/a.wav''),
           model_transcribe = (\<lambda>p. Inl (Exception ''bad audio'')),
           time_time = 5,
           os_unlink = (\<lambda>p. Inr ()) \<rparr>" "[1, 2, 3]" "''/tmp/a.wav''"
        diarization_processing
        "extract_insights_sync
           \<lparr> named_temporary_file = (\<lambda>b. Inr ''/tmp/a.wav''),
             model_transcribe = (\<lambda>p. Inl (Exception ''bad audio'')),
             time_time = 5,
             os_unlink = (\<lambda>p. Inr ()) \<rparr>"]
  by (simp add: extract_insights_sync_def perform_diarization_sync_def
      perform_diarization_sync_with_def diarization_processing_def)

text \<open>
  Claim C10. For every transcript and every diarization mapping, insight extraction
  returns exactly one insight: the action, the keywords and the sentiment are fixed, the
  speaker is the entry of \<^verbatim>\<open>speaker_1\<close> or \<^verbatim>\<open>Unknown\<close>. So a segment whose temporary
  file is written and removed yields exactly one insight, whatever the audio and whatever
  the transcription does.
\<close>

theorem extract_insights_sync_single:
  "extract_insights_sync env transcription diarization =
     Inr [\<lparr> timestamp = time_time env,
            speaker = (case diarization ''speaker_1'' of Some s \<Rightarrow> s | None \<Rightarrow> ''Unknown''),
            action = ''Follow up on discussion'',
            keywords' = [''follow'', ''discussion''],
            sentiment = ''positive'' \<rparr>] \<and>
   (named_temporary_file env b = Inr p \<and> os_unlink env p = Inr () \<longrightarrow>
      (\<exists>i. fst (process_audio_chunk env b) = Inr [i] \<and>
           action i = ''Follow up on discussion'' \<and>
           keywords' i = [''follow'', ''discussion''] \<and>
           sentiment i = ''positive'' \<and> speaker i = ''Speaker 1''))"
proof -
  have "fst (process_audio_chunk env b) =
          extract_insights_sync env (fst (transcribe_audio_sync env p))
            (fst (perform_diarization_sync p))"
    if "named_temporary_file env b = Inr p" and "os_unlink env p = Inr ()"
    using that by (rule process_audio_chunk_unfold)
  then show ?thesis
    by (simp add: extract_insights_sync_def perform_diarization_sync_def
        diarization_processing_def)
qed

theorem extract_insights_sync_single_witness:
  "extract_insights_sync
     \<lparr> named_temporary_file = (\<lambda>b. Inr ''/tmp/a.wav''),
       model_transcribe = (\<lambda>p. Inr [''text'' \<mapsto> ''hello'']),
       time_time = 7,
       os_unlink = (\<lambda>p. Inr ()) \<rparr> ''hello'' Map.empty
   = Inr [\<lparr> timestamp = 7, speaker = ''Unknown'', action = ''Follow up on discussion'',
            keywords' = [''follow'', ''discussion''], sentiment = ''positive'' \<rparr>] \<and>
   (\<exists>i. fst (process_audio_chunk
          \<lparr> named_temporary_file = (\<lambda>b. Inr ''/tmp/a.wav''),
            model_transcribe = (\<lambda>p. Inr [''text'' \<mapsto> ''hello'']),
            time_time = 7,
            os_unlink = (\<lambda>p. Inr ()) \<rparr> [1, 2, 3]) = Inr [i] \<and>
        action i = ''Follow up on discussion'')"
  using extract_insights_sync_single
    [of "\<lparr> named_temporary_file = (\<lambda>b. Inr ''/tmp/a.wav''),
           model_transcribe = (\<lambda>p. Inr [''text'' \<mapsto> ''hello'']),
           time_time = 7,
           os_unlink = (\<lambda>p. Inr ()) \<rparr>" "''hello''" Map.empty "[1, 2, 3]" "''/tmp/a.wav''"]
  by auto

section \<open>Properties of the capture loop\<close>

subsection \<open>Projections\<close>

lemma emit_simps [simp]:
  "audio_buffer (emit es st) = audio_buffer st"
  "insights_queue (emit es st) = insights_queue st"
  "trace (emit es st) = trace st @ es"
  by (simp_all add: emit_def)

lemma delayed_append [simp]: "delayed (xs @ ys) = delayed xs @ delayed ys"
  by (induction xs rule: delayed.induct) simp_all

lemma delayed_map_Put [simp]: "delayed (map Put xs) = []"
  by (induction xs) simp_all

lemma delayed_reads [simp]: "delayed (concat (map (\<lambda>c. [Read c, Sleep]) cs)) = []"
  by (induction cs) simp_all

lemma delayed_concat_replicate [simp]:
  "delayed (concat (replicate n es)) = concat (replicate n (delayed es))"
  by (induction n) simp_all

lemma length_concat_replicate [simp]: "length (concat (replicate n xs)) = n * length xs"
  by (induction n) simp_all

lemma concat_replicate_replicate [simp]:
  "concat (replicate n (replicate m x)) = replicate (n * m) x"
  by (induction n) (simp_all add: replicate_add)

lemma collect_simps [simp]:
  "audio_buffer (collect r st) = audio_buffer st"
  "delayed (trace (collect r st)) = delayed (trace st)"
  "insights_queue (collect (Got xs) st) = insights_queue st @ xs"
  "insights_queue (collect (GetRaised e) st) = insights_queue st"
  by (simp_all add: collect_def split: get_result.splits)

subsection \<open>The three ways through the loop body\<close>

lemma loop_body_below:
  "length (audio_buffer st) + length chunk < T \<Longrightarrow>
   loop_body T celery chunk st =
     (None, emit [Read chunk, Sleep] (st\<lparr>audio_buffer := audio_buffer st @ chunk\<rparr>))"
  by (simp add: loop_body_def Let_def emit_def)

lemma loop_body_reached:
  "T \<le> length (audio_buffer st) + length chunk \<Longrightarrow>
   celery (length (delayed (trace st))) (audio_buffer st @ chunk) = AsyncResult r \<Longrightarrow>
   loop_body T celery chunk st =
     (None, emit [Sleep] (collect r
        (emit [Read chunk, Delay (audio_buffer st @ chunk)] (st\<lparr>audio_buffer := []\<rparr>))))"
  by (simp add: loop_body_def Let_def emit_def)

lemma loop_body_raised:
  "T \<le> length (audio_buffer st) + length chunk \<Longrightarrow>
   celery (length (delayed (trace st))) (audio_buffer st @ chunk) = DelayRaised e \<Longrightarrow>
   loop_body T celery chunk st = (Some e, emit [Read chunk] (st\<lparr>audio_buffer := []\<rparr>))"
  by (simp add: loop_body_def Let_def emit_def)

lemma capture_loop_Cons:
  "chunk \<noteq> [] \<Longrightarrow> loop_body T celery chunk st = (None, st') \<Longrightarrow>
   capture_loop T celery (chunk # stdout) st = capture_loop T celery stdout st'"
  by simp

subsection \<open>Runs that stay below the threshold, and runs up to a cut\<close>

lemma capture_loop_below:
  "[] \<notin> set cs \<Longrightarrow> length (audio_buffer st) + length (concat cs) < T \<Longrightarrow>
   capture_loop T celery (cs @ rest) st =
     capture_loop T celery rest
       (st\<lparr>audio_buffer := audio_buffer st @ concat cs,
           trace := trace st @ concat (map (\<lambda>c. [Read c, Sleep]) cs)\<rparr>)"
proof (induction cs arbitrary: st)
  case Nil
  then show ?case by simp
next
  case (Cons c cs)
  let ?st1 = "emit [Read c, Sleep] (st\<lparr>audio_buffer := audio_buffer st @ c\<rparr>)"
  have b: "loop_body T celery c st = (None, ?st1)"
    using Cons.prems by (intro loop_body_below) simp
  have "capture_loop T celery ((c # cs) @ rest) st = capture_loop T celery (cs @ rest) ?st1"
  proof -
    from Cons.prems have "c \<noteq> []" by auto
    with b show ?thesis by simp
  qed
  also have "\<dots> = capture_loop T celery rest
       (?st1\<lparr>audio_buffer := audio_buffer ?st1 @ concat cs,
             trace := trace ?st1 @ concat (map (\<lambda>c. [Read c, Sleep]) cs)\<rparr>)"
    using Cons.prems by (intro Cons.IH) simp_all
  finally show ?case by (simp add: emit_def)
qed

lemma capture_loop_cut:
  assumes "[] \<notin> set cs" and "c \<noteq> []"
    and "length (audio_buffer st) + length (concat cs) < T"
    and "T \<le> length (audio_buffer st) + length (concat cs) + length c"
    and "celery (length (delayed (trace st))) (audio_buffer st @ concat cs @ c) = AsyncResult r"
  shows "capture_loop T celery (cs @ c # rest) st =
         capture_loop T celery rest
           (emit [Sleep] (collect r
              (emit (concat (map (\<lambda>c. [Read c, Sleep]) cs) @
                       [Read c, Delay (audio_buffer st @ concat cs @ c)])
                 (st\<lparr>audio_buffer := []\<rparr>))))"
proof -
  let ?st1 = "st\<lparr>audio_buffer := audio_buffer st @ concat cs,
                 trace := trace st @ concat (map (\<lambda>c. [Read c, Sleep]) cs)\<rparr>"
  have 1: "capture_loop T celery (cs @ c # rest) st = capture_loop T celery (c # rest) ?st1"
    using assms(1,3) by (rule capture_loop_below)
  have 2: "loop_body T celery c ?st1 =
     (None, emit [Sleep] (collect r
        (emit [Read c, Delay (audio_buffer ?st1 @ c)] (?st1\<lparr>audio_buffer := []\<rparr>))))"
    using assms(4,5) by (intro loop_body_reached) simp_all
  show ?thesis
    unfolding 1 using assms(2) 2 by (simp add: emit_def)
qed

lemma capture_loop_tail:
  assumes "[] \<notin> set cs" and "length (audio_buffer st) + length (concat cs) < T"
  shows "capture_loop T celery cs st =
         (None, emit (concat (map (\<lambda>c. [Read c, Sleep]) cs) @ [Read []])
                  (st\<lparr>audio_buffer := audio_buffer st @ concat cs\<rparr>))"
  using capture_loop_below [OF assms, of celery "[]"] by (simp add: emit_def)

lemma first_cut:
  assumes "audio_buffer st = []"
    and "celery (length (delayed (trace st))) (zeros 100352) = AsyncResult r"
  shows "capture_loop THRESHOLD celery (replicate 98 (zeros 1024) @ rest) st =
         capture_loop THRESHOLD celery rest
           (emit [Sleep] (collect r
              (emit (concat (replicate 97 [Read (zeros 1024), Sleep]) @
                       [Read (zeros 1024), Delay (zeros 100352)])
                 (st\<lparr>audio_buffer := []\<rparr>))))"
proof -
  have split: "replicate 98 (zeros 1024) @ rest = replicate 97 (zeros 1024) @ zeros 1024 # rest"
    using replicate_add [of 97 1 "zeros 1024"] by simp
  have "capture_loop THRESHOLD celery (replicate 97 (zeros 1024) @ zeros 1024 # rest) st =
         capture_loop THRESHOLD celery rest
           (emit [Sleep] (collect r
              (emit (concat (map (\<lambda>c. [Read c, Sleep]) (replicate 97 (zeros 1024))) @
                       [Read (zeros 1024),
                        Delay (audio_buffer st @ concat (replicate 97 (zeros 1024)) @ zeros 1024)])
                 (st\<lparr>audio_buffer := []\<rparr>))))"
    using assms by (intro capture_loop_cut) (simp_all add: THRESHOLD_def replicate_add [symmetric])
  then show ?thesis
    unfolding split using assms(1) by (simp add: replicate_add [symmetric])
qed

lemma run_150000:
  "capture_loop THRESHOLD (always_got [])
     (replicate 146 (zeros 1024) @ [zeros 496]) fresh =
   (None, emit (concat (replicate 48 [Read (zeros 1024), Sleep]) @
                [Read (zeros 496), Sleep, Read []])
     ((emit [Sleep] (collect (Got [])
              (emit (concat (replicate 97 [Read (zeros 1024), Sleep]) @
                       [Read (zeros 1024), Delay (zeros 100352)])
                 (fresh\<lparr>audio_buffer := []\<rparr>))))\<lparr>audio_buffer := zeros 49648\<rparr>))"
proof -
  let ?st1 = "emit [Sleep] (collect (Got [])
              (emit (concat (replicate 97 [Read (zeros 1024), Sleep]) @
                       [Read (zeros 1024), Delay (zeros 100352)])
                 (fresh\<lparr>audio_buffer := []\<rparr>)))"
  have split: "replicate 146 (zeros 1024) @ [zeros 496] =
      replicate 98 (zeros 1024) @ (replicate 48 (zeros 1024) @ [zeros 496])"
    using replicate_add [of 98 48 "zeros 1024"] by simp
  have 1: "capture_loop THRESHOLD (always_got [])
       (replicate 98 (zeros 1024) @ (replicate 48 (zeros 1024) @ [zeros 496])) fresh =
     capture_loop THRESHOLD (always_got []) (replicate 48 (zeros 1024) @ [zeros 496]) ?st1"
    by (rule first_cut) (simp_all add: fresh_def always_got_def)
  have 2: "capture_loop THRESHOLD (always_got []) (replicate 48 (zeros 1024) @ [zeros 496]) ?st1 =
     (None, emit (concat (map (\<lambda>c. [Read c, Sleep]) (replicate 48 (zeros 1024) @ [zeros 496]))
                   @ [Read []])
              (?st1\<lparr>audio_buffer :=
                  audio_buffer ?st1 @ concat (replicate 48 (zeros 1024) @ [zeros 496])\<rparr>))"
    by (rule capture_loop_tail) (simp_all add: THRESHOLD_def fresh_def)
  show ?thesis
    unfolding split 1 2 by (simp add: fresh_def replicate_add [symmetric])
qed

subsection \<open>Invariants of the segmenter\<close>

lemma loop_body_partition:
  assumes "loop_body T celery chunk st = (None, st')"
  shows "concat (delayed (trace st')) @ audio_buffer st' =
         concat (delayed (trace st)) @ audio_buffer st @ chunk"
proof (cases "T \<le> length (audio_buffer st) + length chunk")
  case True
  then show ?thesis using assms
    by (cases "celery (length (delayed (trace st))) (audio_buffer st @ chunk)")
       (auto simp: loop_body_reached loop_body_raised)
next
  case False
  then show ?thesis using assms by (auto simp: loop_body_below)
qed

lemma capture_loop_partition:
  assumes "capture_loop T celery stdout st = (None, st')" and "[] \<notin> set stdout"
  shows "concat (delayed (trace st')) @ audio_buffer st' =
         concat (delayed (trace st)) @ audio_buffer st @ concat stdout"
  using assms
proof (induction stdout arbitrary: st)
  case Nil
  then show ?case by auto
next
  case (Cons chunk stdout)
  from Cons.prems obtain st1 where b: "loop_body T celery chunk st = (None, st1)"
    and r: "capture_loop T celery stdout st1 = (None, st')"
    by (auto split: prod.splits option.splits)
  from Cons.IH [OF r] Cons.prems(2) loop_body_partition [OF b] show ?case by simp
qed

lemma loop_body_lower:
  assumes "length (audio_buffer st) < T" and "\<forall>b \<in> set (delayed (trace st)). T \<le> length b"
  shows "length (audio_buffer (snd (loop_body T celery chunk st))) < T \<and>
         (\<forall>b \<in> set (delayed (trace (snd (loop_body T celery chunk st)))). T \<le> length b)"
proof (cases "T \<le> length (audio_buffer st) + length chunk")
  case True
  then show ?thesis using assms
    by (cases "celery (length (delayed (trace st))) (audio_buffer st @ chunk)")
       (auto simp: loop_body_reached loop_body_raised)
next
  case False
  then show ?thesis using assms by (auto simp: loop_body_below)
qed

lemma capture_loop_lower:
  assumes "length (audio_buffer st) < T" and "\<forall>b \<in> set (delayed (trace st)). T \<le> length b"
  shows "length (audio_buffer (snd (capture_loop T celery stdout st))) < T \<and>
         (\<forall>b \<in> set (delayed (trace (snd (capture_loop T celery stdout st)))). T \<le> length b)"
  using assms
proof (induction stdout arbitrary: st)
  case Nil
  then show ?case by simp
next
  case (Cons chunk stdout)
  have s: "length (audio_buffer (snd (loop_body T celery chunk st))) < T \<and>
         (\<forall>b \<in> set (delayed (trace (snd (loop_body T celery chunk st)))). T \<le> length b)"
    using Cons.prems by (rule loop_body_lower)
  show ?case
  proof (cases "loop_body T celery chunk st")
    case (Pair r st1)
    with s Cons.IH [of st1] Cons.prems show ?thesis
      by (cases r) auto
  qed
qed

lemma loop_body_upper:
  assumes "length (audio_buffer st) < T" and "length chunk \<le> 1024"
    and "\<forall>b \<in> set (delayed (trace st)). length b \<le> T + 1023"
  shows "length (audio_buffer (snd (loop_body T celery chunk st))) < T \<and>
         (\<forall>b \<in> set (delayed (trace (snd (loop_body T celery chunk st)))). length b \<le> T + 1023)"
proof (cases "T \<le> length (audio_buffer st) + length chunk")
  case True
  then show ?thesis using assms
    by (cases "celery (length (delayed (trace st))) (audio_buffer st @ chunk)")
       (auto simp: loop_body_reached loop_body_raised)
next
  case False
  then show ?thesis using assms by (auto simp: loop_body_below)
qed

lemma capture_loop_upper:
  assumes "length (audio_buffer st) < T" and "\<forall>c \<in> set stdout. length c \<le> 1024"
    and "\<forall>b \<in> set (delayed (trace st)). length b \<le> T + 1023"
  shows "length (audio_buffer (snd (capture_loop T celery stdout st))) < T \<and>
         (\<forall>b \<in> set (delayed (trace (snd (capture_loop T celery stdout st)))).
            length b \<le> T + 1023)"
  using assms
proof (induction stdout arbitrary: st)
  case Nil
  then show ?case by simp
next
  case (Cons chunk stdout)
  have s: "length (audio_buffer (snd (loop_body T celery chunk st))) < T \<and>
         (\<forall>b \<in> set (delayed (trace (snd (loop_body T celery chunk st)))). length b \<le> T + 1023)"
    using Cons.prems by (intro loop_body_upper) auto
  show ?case
  proof (cases "loop_body T celery chunk st")
    case (Pair r st1)
    with s Cons.IH [of st1] Cons.prems show ?thesis
      by (cases r) auto
  qed
qed

lemma segments_total: "\<forall>b \<in> set bs. T \<le> length b \<Longrightarrow> length bs * T \<le> length (concat bs)"
  by (induction bs) auto

section \<open>The claims about the capture loop\<close>

text \<open>
  Claim C1, as stated, fails. The claim: for every threshold \<open>T\<close> and input of length
  \<open>L\<close> the segmenter emits exactly \<open>L div T\<close> segments of exactly \<open>T\<close> bytes; for
  150000 bytes and the threshold 100000, one segment of 100000 bytes and 50000 bytes left
  in the buffer. The code tests the threshold only after a whole block was appended and
  then submits the whole buffer: 150000 zero bytes read in blocks of 1024 bytes (the last
  one of 496) give one segment of 100352 bytes and leave 49648 bytes in the buffer.
\<close>

theorem segmenter_exact_threshold_counterexample:
  "length (concat (replicate 146 (zeros 1024) @ [zeros 496])) = 150000 \<and>
   fst (capture_loop THRESHOLD (always_got [])
          (replicate 146 (zeros 1024) @ [zeros 496]) fresh) = None \<and>
   map length (delayed (trace (snd (capture_loop THRESHOLD (always_got [])
          (replicate 146 (zeros 1024) @ [zeros 496]) fresh)))) = [100352] \<and>
   length (audio_buffer (snd (capture_loop THRESHOLD (always_got [])
          (replicate 146 (zeros 1024) @ [zeros 496]) fresh))) = 49648"
  unfolding run_150000 by (simp add: fresh_def)

text \<open>
  Claim C1, amended. For a threshold \<open>T > 0\<close>, a run that starts with an empty buffer,
  reads the non-empty blocks \<open>stdout\<close> up to the end of the stream and is not left by
  an exception: the segments submitted, in order, followed by the bytes left in the
  buffer are exactly the input (no byte twice, none skipped); every segment holds at
  least \<open>T\<close> bytes (it is the whole buffer at the moment it reached \<open>T\<close>); there are
  at most \<open>L div T\<close> segments; fewer than \<open>T\<close> bytes are left.
\<close>

theorem segmenter_partition:
  assumes "0 < T" and "[] \<notin> set stdout"
    and "audio_buffer st = []" and "delayed (trace st) = []"
    and "fst (capture_loop T celery stdout st) = None"
  shows "concat (delayed (trace (snd (capture_loop T celery stdout st)))) @
           audio_buffer (snd (capture_loop T celery stdout st)) = concat stdout \<and>
         (\<forall>b \<in> set (delayed (trace (snd (capture_loop T celery stdout st)))). T \<le> length b) \<and>
         length (delayed (trace (snd (capture_loop T celery stdout st))))
           \<le> length (concat stdout) div T \<and>
         length (audio_buffer (snd (capture_loop T celery stdout st))) < T"
proof -
  let ?st' = "snd (capture_loop T celery stdout st)"
  have run: "capture_loop T celery stdout st = (None, ?st')"
    using assms(5) by (simp add: prod_eq_iff)
  have part: "concat (delayed (trace ?st')) @ audio_buffer ?st' = concat stdout"
    using capture_loop_partition [OF run assms(2)] assms(3,4) by simp
  have low: "length (audio_buffer ?st') < T \<and> (\<forall>b \<in> set (delayed (trace ?st')). T \<le> length b)"
    using assms(1,3,4) by (intro capture_loop_lower) simp_all
  have "length (delayed (trace ?st')) * T \<le> length (concat (delayed (trace ?st')))"
    using low by (intro segments_total) simp
  also have "\<dots> \<le> length (concat stdout)"
    unfolding part [symmetric] by simp
  finally have "length (delayed (trace ?st')) \<le> length (concat stdout) div T"
    using assms(1) by (simp add: less_eq_div_iff_mult_less_eq)
  with part low show ?thesis by simp
qed

theorem segmenter_partition_witness:
  "delayed (trace (snd (capture_loop 3 (always_got []) [[1, 2], [3, 4], [5]] fresh))) =
     [[1, 2, 3, 4]] \<and>
   audio_buffer (snd (capture_loop 3 (always_got []) [[1, 2], [3, 4], [5]] fresh)) = [5] \<and>
   length (delayed (trace (snd (capture_loop 3 (always_got []) [[1, 2], [3, 4], [5]] fresh))))
     \<le> length (concat [[1, 2], [3, 4], [5 :: byte]]) div 3"
  using segmenter_partition [of 3 "[[1, 2], [3, 4], [5]]" fresh "always_got []"]
  by (simp add: fresh_def always_got_def loop_body_def collect_def emit_def)

lemma process_video_stream_delayed:
  "create_subprocess_exec env stream_url = Inr stdout \<Longrightarrow>
   delayed (trace (snd (process_video_stream env stream_url st))) =
   delayed (trace (snd (capture_loop THRESHOLD (celery_delay env) stdout
                          (st\<lparr>audio_buffer := []\<rparr>))))"
  by (simp add: process_video_stream_def split: prod.splits option.splits)

text \<open>
  Claim C9. Whatever the stream, as long as every \<^verbatim>\<open>read(1024)\<close> returns at most 1024
  bytes, every segment that \<^verbatim>\<open>process_video_stream\<close> submits holds at least 100000 and
  at most 101023 bytes.
\<close>

theorem segment_length_bounds:
  assumes "create_subprocess_exec env stream_url = Inr stdout"
    and "\<forall>c \<in> set stdout. length c \<le> 1024"
    and "delayed (trace st) = []"
  shows "\<forall>b \<in> set (delayed (trace (snd (process_video_stream env stream_url st)))).
           100000 \<le> length b \<and> length b \<le> 101023"
proof -
  let ?st0 = "st\<lparr>audio_buffer := []\<rparr>"
  let ?st' = "snd (capture_loop THRESHOLD (celery_delay env) stdout ?st0)"
  have low: "length (audio_buffer ?st') < THRESHOLD \<and>
             (\<forall>b \<in> set (delayed (trace ?st')). THRESHOLD \<le> length b)"
    using assms(3) by (intro capture_loop_lower) (simp_all add: THRESHOLD_def)
  have up: "length (audio_buffer ?st') < THRESHOLD \<and>
            (\<forall>b \<in> set (delayed (trace ?st')). length b \<le> THRESHOLD + 1023)"
    using assms(2,3) by (intro capture_loop_upper) (simp_all add: THRESHOLD_def)
  from low up show ?thesis
    unfolding process_video_stream_delayed [OF assms(1)] by (simp add: THRESHOLD_def)
qed

lemma run_98:
  "capture_loop THRESHOLD (always_got [insight0]) (replicate 98 (zeros 1024)) fresh =
   (None, emit [Read []]
      (emit [Sleep] (collect (Got [insight0])
              (emit (concat (replicate 97 [Read (zeros 1024), Sleep]) @
                       [Read (zeros 1024), Delay (zeros 100352)])
                 (fresh\<lparr>audio_buffer := []\<rparr>)))))"
  using first_cut [of fresh "always_got [insight0]" "Got [insight0]" "[]"]
  by (simp add: fresh_def always_got_def)

theorem segment_length_bounds_witness:
  "delayed (trace (snd (process_video_stream
      \<lparr> create_subprocess_exec = stream_of (replicate 98 (zeros 1024)),
        celery_delay = always_got [insight0] \<rparr> ''rtmp://live'' fresh))) = [zeros 100352] \<and>
   100000 \<le> length (zeros 100352) \<and> length (zeros 100352) \<le> 101023"
  using segment_length_bounds
    [of "\<lparr> create_subprocess_exec = stream_of (replicate 98 (zeros 1024)),
           celery_delay = always_got [insight0] \<rparr>" "''rtmp://live''"
        "replicate 98 (zeros 1024)" fresh]
    process_video_stream_delayed
    [of "\<lparr> create_subprocess_exec = stream_of (replicate 98 (zeros 1024)),
           celery_delay = always_got [insight0] \<rparr>" "''rtmp://live''"
        "replicate 98 (zeros 1024)" fresh]
    run_98
  by (simp add: stream_of_def fresh_def)


subsection \<open>The order of submission and wait\<close>

lemma awaited_append: "awaited xs \<Longrightarrow> awaited ys \<Longrightarrow> awaited (xs @ ys)"
proof (induction xs rule: awaited.induct)
  case 1
  then show ?case by simp
next
  case (2 b es)
  then show ?case by (cases es) (auto split: event.splits)
qed auto

lemma awaited_puts: "awaited (map Put xs @ es) = awaited es"
  by (induction xs) simp_all

lemma loop_body_awaited:
  assumes "awaited (trace st)"
  shows "awaited (trace (snd (loop_body T celery chunk st)))"
proof (cases "T \<le> length (audio_buffer st) + length chunk")
  case False
  then show ?thesis using assms by (simp add: loop_body_below awaited_append)
next
  case True
  show ?thesis
  proof (cases "celery (length (delayed (trace st))) (audio_buffer st @ chunk)")
    case (DelayRaised e)
    with True assms show ?thesis by (simp add: loop_body_raised awaited_append)
  next
    case (AsyncResult r)
    have "awaited ([Read chunk, Delay (audio_buffer st @ chunk)] @
                   (case r of Got xs \<Rightarrow> AwaitGet r # map Put xs
                      | GetRaised e \<Rightarrow> [AwaitGet r,
                          LogError (''Celery task processing failed: '' @ str e)]) @ [Sleep])"
      by (cases r) (simp_all add: awaited_puts)
    with True AsyncResult assms show ?thesis
      by (cases r) (simp_all add: loop_body_reached collect_def awaited_append)
  qed
qed

text \<open>
  Claim C2, amended. In every run of the capture loop each submission is directly
  followed, in the loop's own control flow, by the bounded wait for the result of that
  same segment; the insights are put on the queue (or the failure is logged) before the
  loop sleeps and reads again. The wait is a step of the capture loop, not a task of its
  own.
\<close>

theorem submission_then_wait:
  assumes "awaited (trace st)"
  shows "awaited (trace (snd (capture_loop T celery stdout st)))"
  using assms
proof (induction stdout arbitrary: st)
  case Nil
  then show ?case by (simp add: awaited_append)
next
  case (Cons chunk stdout)
  have q: "awaited (trace (snd (loop_body T celery chunk st)))"
    using Cons.prems by (rule loop_body_awaited)
  show ?case
  proof (cases "chunk = []")
    case True
    with Cons.prems show ?thesis by (simp add: awaited_append)
  next
    case False
    show ?thesis
    proof (cases "loop_body T celery chunk st")
      case (Pair r st1)
      with q Cons.IH [of st1] False show ?thesis by (cases r) auto
    qed
  qed
qed

lemma run_99:
  "capture_loop THRESHOLD (always_got [insight0]) (replicate 98 (zeros 1024) @ [zeros 1024]) fresh =
   (None, emit [Read (zeros 1024), Sleep, Read []]
      (emit [Sleep] (collect (Got [insight0])
              (emit (concat (replicate 97 [Read (zeros 1024), Sleep]) @
                       [Read (zeros 1024), Delay (zeros 100352)])
                 (fresh\<lparr>audio_buffer := []\<rparr>))))\<lparr>audio_buffer := zeros 1024\<rparr>)"
proof -
  let ?st1 = "emit [Sleep] (collect (Got [insight0])
              (emit (concat (replicate 97 [Read (zeros 1024), Sleep]) @
                       [Read (zeros 1024), Delay (zeros 100352)])
                 (fresh\<lparr>audio_buffer := []\<rparr>)))"
  have 1: "capture_loop THRESHOLD (always_got [insight0])
       (replicate 98 (zeros 1024) @ [zeros 1024]) fresh =
     capture_loop THRESHOLD (always_got [insight0]) [zeros 1024] ?st1"
    by (rule first_cut) (simp_all add: fresh_def always_got_def)
  have 2: "capture_loop THRESHOLD (always_got [insight0]) [zeros 1024] ?st1 =
     (None, emit (concat (map (\<lambda>c. [Read c, Sleep]) [zeros 1024]) @ [Read []])
              (?st1\<lparr>audio_buffer := audio_buffer ?st1 @ concat [zeros 1024]\<rparr>))"
    by (rule capture_loop_tail) (simp_all add: THRESHOLD_def fresh_def)
  show ?thesis
    unfolding 1 2 by (simp add: fresh_def emit_def)
qed

lemma no_wait_skip:
  "delayed xs = [] \<Longrightarrow> no_wait_before_read (xs @ ys) = no_wait_before_read ys"
  by (induction xs rule: delayed.induct) simp_all

text \<open>
  Claim C2, as stated, fails. The claim: between submitting segment \<open>n\<close> and reading the
  bytes of segment \<open>n + 1\<close> the capture loop never waits for the worker of segment
  \<open>n\<close>. In a run of 99 reads of 1024 bytes the 98th read completes the first segment;
  the events from that read on show the wait for the result and the put of its insight
  before the next read.
\<close>

theorem capture_loop_waits_counterexample:
  "\<not> no_wait_before_read (trace (snd (capture_loop THRESHOLD (always_got [insight0])
      (replicate 98 (zeros 1024) @ [zeros 1024]) fresh))) \<and>
   drop 194 (trace (snd (capture_loop THRESHOLD (always_got [insight0])
      (replicate 98 (zeros 1024) @ [zeros 1024]) fresh))) =
   [Read (zeros 1024), Delay (zeros 100352), AwaitGet (Got [insight0]), Put insight0, Sleep,
    Read (zeros 1024), Sleep, Read []]"
  unfolding run_99 by (simp add: fresh_def collect_def no_wait_skip)

theorem submission_then_wait_witness:
  "awaited (trace fresh) \<and>
   trace (snd (capture_loop 3 (always_got [insight0]) [[1, 2], [3, 4], [5]] fresh)) =
     [Read [1, 2], Sleep, Read [3, 4], Delay [1, 2, 3, 4], AwaitGet (Got [insight0]),
      Put insight0, Sleep, Read [5], Sleep, Read []] \<and>
   awaited (trace (snd (capture_loop 3 (always_got [insight0]) [[1, 2], [3, 4], [5]] fresh)))"
  using submission_then_wait [of fresh 3 "always_got [insight0]" "[[1, 2], [3, 4], [5]]"]
  by (simp add: fresh_def always_got_def loop_body_def collect_def emit_def)




text \<open>
  Claim C7. When the result of a segment is retrieved, every insight of the result is
  put on the queue, in the order of the returned list, each once: the queue grows by
  exactly that list, and the puts follow the wait in that order.
\<close>

theorem result_pushed_in_order:
  assumes "chunk \<noteq> []"
    and "T \<le> length (audio_buffer st) + length chunk"
    and "celery (length (delayed (trace st))) (audio_buffer st @ chunk) = AsyncResult (Got insights)"
  shows "insights_queue (snd (loop_body T celery chunk st)) = insights_queue st @ insights \<and>
         trace (snd (loop_body T celery chunk st)) =
           trace st @ [Read chunk, Delay (audio_buffer st @ chunk), AwaitGet (Got insights)]
             @ map Put insights @ [Sleep] \<and>
         capture_loop T celery (chunk # stdout) st =
           capture_loop T celery stdout (snd (loop_body T celery chunk st))"
  using assms by (simp add: loop_body_reached collect_def)

theorem result_pushed_in_order_witness:
  "insights_queue (snd (loop_body THRESHOLD
      (always_got [insight0, insight0\<lparr>speaker := ''Unknown''\<rparr>]) [7]
      (fresh\<lparr>audio_buffer := zeros 99999, insights_queue := [insight0]\<rparr>))) =
   [insight0, insight0, insight0\<lparr>speaker := ''Unknown''\<rparr>]"
  using result_pushed_in_order
    [of "[7]" THRESHOLD "fresh\<lparr>audio_buffer := zeros 99999, insights_queue := [insight0]\<rparr>"
        "always_got [insight0, insight0\<lparr>speaker := ''Unknown''\<rparr>]"
        "[insight0, insight0\<lparr>speaker := ''Unknown''\<rparr>]"]
  by (simp add: THRESHOLD_def fresh_def always_got_def)





section \<open>The claims about the endpoints\<close>

text \<open>
  Claim C8. For every request, \<^verbatim>\<open>analyze_video\<close> answers with the status
  \<^verbatim>\<open>started\<close> and the submitted URL, and it only records
  \<^verbatim>\<open>process_video_stream\<close> with that URL as the last background task; the pipeline is
  not run by the handler.
\<close>

theorem analyze_video_started:
  "response (analyze_video request tasks) =
     [(''status'', ''started''), (''video_url'', video_url request)] \<and>
   background_tasks (analyze_video request tasks) =
     tasks @ [ProcessVideoStream (video_url request)]"
  by (simp add: analyze_video_def)


lemma hub_step_conserves:
  "map (\<lambda>(c, x, ok). x) (taken (hub_step a h)) @ pending (hub_step a h) =
   map (\<lambda>(c, x, ok). x) (taken h) @ pending h @ enqueued [a]"
  by (cases a) (auto split: list.splits option.splits)

lemma enqueued_Cons: "enqueued (a # as) = enqueued [a] @ enqueued as"
  by (cases a) simp_all

text \<open>
  Claim C3, amended. All connections read the one global queue, and a \<^verbatim>\<open>get\<close>
  removes what it returns. So every insight put on the queue goes to at most one
  connection, the one whose \<^verbatim>\<open>get\<close> is served first: at every moment the insights
  taken so far (each by one connection), followed by the insights still on the queue, are
  exactly the insights put, in the order they were put. An insight still on the queue
  when a connection is accepted is delivered to it although it was put earlier.
\<close>

theorem each_insight_to_one_subscriber:
  "map (\<lambda>(c, x, ok). x) (taken (hub_run as h)) @ pending (hub_run as h) =
   map (\<lambda>(c, x, ok). x) (taken h) @ pending h @ enqueued as"
proof (induction as arbitrary: h)
  case Nil
  then show ?case by simp
next
  case (Cons a as)
  have "map (\<lambda>(c, x, ok). x) (taken (hub_run (a # as) h)) @ pending (hub_run (a # as) h) =
        (map (\<lambda>(c, x, ok). x) (taken (hub_step a h)) @ pending (hub_step a h)) @ enqueued as"
    using Cons.IH [of "hub_step a h"] by simp
  also have "\<dots> = (map (\<lambda>(c, x, ok). x) (taken h) @ pending h @ enqueued [a]) @ enqueued as"
    by (simp only: hub_step_conserves)
  also have "\<dots> = map (\<lambda>(c, x, ok). x) (taken h) @ pending h @ enqueued (a # as)"
    using enqueued_Cons [of a as] by simp
  finally show ?case .
qed

text \<open>
  Claim C3, as stated, fails. The claim: every insight is received by every subscriber
  attached at that moment, and a subscriber receives exactly the insights put after it
  attached. With two connections accepted before one insight is put, the first
  connection served receives it and the second receives nothing, the queue being empty;
  and a connection accepted after an insight was put receives that insight.
\<close>

theorem broadcast_counterexample:
  "received 1 (hub_run [Accept 1, Accept 2, Enqueue insight0, Serve 1 None, Serve 2 None] hub0)
     = [insight0] \<and>
   received 2 (hub_run [Accept 1, Accept 2, Enqueue insight0, Serve 1 None, Serve 2 None] hub0)
     = [] \<and>
   pending (hub_run [Accept 1, Accept 2, Enqueue insight0, Serve 1 None, Serve 2 None] hub0)
     = [] \<and>
   received 1 (hub_run [Enqueue insight0, Accept 1, Serve 1 None] hub0) = [insight0]"
  by (simp add: hub0_def received_def)


end
